theory Spec2Isabelle
  imports Main "HOL-Library.Word"
begin

section \<open>Text, values and errors of the Python runtime\<close>

text \<open>
  A Python \<open>str\<close> is a sequence of Unicode code points, so it is a list of naturals here
  (not a list of bytes). \<open>py\<close> writes an ASCII literal of the source as such a list.
\<close>

type_synonym codepoint = nat
type_synonym pystr = "codepoint list"

definition py :: "string \<Rightarrow> pystr" where
  "py s = map of_char s"

datatype pyerr =
    ValueError pystr
  | KeyError pystr
  | TypeError
  | UnicodeEncodeError
  | StrRaised

text \<open>
  The cells a table holds after \<open>pd.read_csv\<close> and after enrichment: text, integers,
  booleans, floats and lists of labels. The program looks at a float only through its
  text, and \<open>repr\<close> of a float determines the float, so a float cell is carried by that
  text; the missing value NaN is \<open>CFloat (py ''nan'')\<close>.
\<close>

datatype cell =
    CStr pystr
  | CInt int
  | CBool bool
  | CFloat pystr
  | CLabels "pystr list"

text \<open>
  What \<open>classify_statement\<close> may be handed: a cell, or any other object, which the
  function sees only through the outcome of its \<open>__str__\<close>.
\<close>

datatype pyval =
    Cell cell
  | Obj "pyerr + pystr"

subsection \<open>\<open>str(x)\<close>\<close>

function digits10 :: "nat \<Rightarrow> pystr" where
  "digits10 n = (if n < 10 then [48 + n] else digits10 (n div 10) @ [48 + n mod 10])"
  by pat_completeness auto
termination
  by (relation "measure id") auto

declare digits10.simps [simp del]

definition int_str :: "int \<Rightarrow> pystr" where
  "int_str i = (if i < 0 then 45 # digits10 (nat (- i)) else digits10 (nat i))"

fun join_str :: "pystr \<Rightarrow> pystr list \<Rightarrow> pystr" where
  "join_str sep [] = []"
| "join_str sep [x] = x"
| "join_str sep (x # y # ys) = x @ sep @ join_str sep (y # ys)"

text \<open>
  \<open>str\<close> of a list of labels: each label between single quotes, as \<open>repr\<close> writes a
  string of printable ASCII that has no quote and no backslash (the labels of this
  program are such strings).
\<close>

definition labels_str :: "pystr list \<Rightarrow> pystr" where
  "labels_str ls = py ''['' @ join_str (py '', '') (map (\<lambda>l. py [CHR 0x27] @ l @ py [CHR 0x27]) ls) @ py '']''"

fun cell_str :: "cell \<Rightarrow> pystr" where
  "cell_str (CStr s) = s"
| "cell_str (CInt i) = int_str i"
| "cell_str (CBool b) = (if b then py ''True'' else py ''False'')"
| "cell_str (CFloat r) = r"
| "cell_str (CLabels ls) = labels_str ls"

fun py_str :: "pyval \<Rightarrow> pyerr + pystr" where
  "py_str (Cell c) = Inr (cell_str c)"
| "py_str (Obj r) = r"

subsection \<open>\<open>kw in text\<close> on strings\<close>

fun startswith :: "pystr \<Rightarrow> pystr \<Rightarrow> bool" where
  "startswith [] s = True"
| "startswith (k # ks) [] = False"
| "startswith (k # ks) (c # cs) = (k = c \<and> startswith ks cs)"

fun str_contains :: "pystr \<Rightarrow> pystr \<Rightarrow> bool" where
  "str_contains kw [] = (kw = [])"
| "str_contains kw (c # cs) = (startswith kw (c # cs) \<or> str_contains kw cs)"

text \<open>
  \<open>str.lower\<close> on ASCII text. The full \<open>str.lower\<close> of the runtime follows the Unicode
  case tables, which are no part of this program: the functions below take the
  lowercasing as the parameter \<open>lower\<close>, and the concrete evaluations use this one.
\<close>

definition ascii_lower :: "pystr \<Rightarrow> pystr" where
  "ascii_lower s = map (\<lambda>c. if 65 \<le> c \<and> c \<le> 90 then c + 32 else c) s"

section \<open>Marketing keyword dictionaries\<close>

text \<open>
  The \<open>dict\<close> iterates in insertion order, so it is an association list in the order
  of the literal. Each value is a \<open>set\<close> of phrases, used only through \<open>any\<close>, which
  does not depend on the order: the phrases are listed in the order of the literal.
\<close>

definition urgency_keywords :: "pystr list" where
  "urgency_keywords =
     [py ''limited'', py ''limited time'', py ''limited run'', py ''limited edition'',
      py ''order now'', py ''last chance'', py ''hurry'', py ''while supplies last'',
      py ''before they're gone'', py ''selling out'', py ''selling fast'', py ''act now'',
      py ''don't wait'', py ''today only'', py ''expires soon'', py ''final hours'',
      py ''almost gone'']"

definition exclusive_keywords :: "pystr list" where
  "exclusive_keywords =
     [py ''exclusive'', py ''exclusively'', py ''exclusive offer'', py ''exclusive deal'',
      py ''members only'', py ''vip'', py ''special access'', py ''invitation only'',
      py ''premium'', py ''privileged'', py ''limited access'', py ''select customers'',
      py ''insider'', py ''private sale'', py ''early access'']"

definition dictionaries :: "(pystr \<times> pystr list) list" where
  "dictionaries =
     [(py ''urgency_marketing'', urgency_keywords),
      (py ''exclusive_marketing'', exclusive_keywords)]"

section \<open>Helper functions\<close>

subsection \<open>\<open>classify_statement\<close>\<close>

text \<open>
  The loop \<open>for label, keywords in dictionaries.items()\<close>, with \<open>matched\<close> as the
  accumulator it appends to.
\<close>

fun classify_loop :: "(pystr \<times> pystr list) list \<Rightarrow> pystr \<Rightarrow> pystr list \<Rightarrow> pystr list" where
  "classify_loop [] text_lower matched = matched"
| "classify_loop ((label, keywords) # items) text_lower matched =
     classify_loop items text_lower
       (if list_ex (\<lambda>kw. str_contains kw text_lower) keywords then matched @ [label] else matched)"

definition classify_statement :: "(pystr \<Rightarrow> pystr) \<Rightarrow> pyval \<Rightarrow> pyerr + pystr list" where
  "classify_statement lower text =
     (case py_str text of
        Inl e \<Rightarrow> Inl e
      | Inr s \<Rightarrow> Inr (classify_loop dictionaries (lower s) []))"

subsection \<open>Tables\<close>

text \<open>
  A \<open>DataFrame\<close> is its columns in order, each a name and the cells of the rows in
  order. \<open>pd.read_csv\<close> gives the columns distinct names and the same number of cells
  (\<open>wf_table\<close>).
\<close>

type_synonym dataframe = "(pystr \<times> cell list) list"

definition df_columns :: "dataframe \<Rightarrow> pystr list" where
  "df_columns df = map fst df"

definition nrows :: "dataframe \<Rightarrow> nat" where
  "nrows df = (case df of [] \<Rightarrow> 0 | (name, col) # rest \<Rightarrow> length col)"

definition wf_table :: "dataframe \<Rightarrow> bool" where
  "wf_table df \<longleftrightarrow> distinct (df_columns df) \<and> (\<forall>(name, col)\<in>set df. length col = nrows df)"

text \<open>\<open>df[name]\<close>: the column, or \<open>KeyError\<close>.\<close>

definition df_getitem :: "dataframe \<Rightarrow> pystr \<Rightarrow> pyerr + cell list" where
  "df_getitem df name = (case map_of df name of None \<Rightarrow> Inl (KeyError name) | Some col \<Rightarrow> Inr col)"

text \<open>
  \<open>df[name] = col\<close>: a column of that name is replaced where it stands, a new name is
  appended as the last column.
\<close>

definition df_setitem :: "dataframe \<Rightarrow> pystr \<Rightarrow> cell list \<Rightarrow> dataframe" where
  "df_setitem df name col =
     (if name \<in> set (df_columns df)
      then map (\<lambda>(n, c). if n = name then (n, col) else (n, c)) df
      else df @ [(name, col)])"

text \<open>\<open>Series.apply(f)\<close>: \<open>f\<close> on each cell in row order; the first exception ends it.\<close>

fun series_apply :: "(cell \<Rightarrow> pyerr + cell) \<Rightarrow> cell list \<Rightarrow> pyerr + cell list" where
  "series_apply f [] = Inr []"
| "series_apply f (x # xs) =
     (case f x of
        Inl e \<Rightarrow> Inl e
      | Inr y \<Rightarrow> (case series_apply f xs of Inl e \<Rightarrow> Inl e | Inr ys \<Rightarrow> Inr (y # ys)))"

text \<open>
  \<open>lbl in cats\<close>: membership in a list, containment in a string, \<open>TypeError\<close> for a
  value that is not iterable.
\<close>

fun py_in :: "pystr \<Rightarrow> cell \<Rightarrow> pyerr + bool" where
  "py_in lbl (CLabels cats) = Inr (lbl \<in> set cats)"
| "py_in lbl (CStr s) = Inr (str_contains lbl s)"
| "py_in lbl (CInt i) = Inl TypeError"
| "py_in lbl (CBool b) = Inl TypeError"
| "py_in lbl (CFloat r) = Inl TypeError"

text \<open>
  The tables live in a store, so that \<open>df.copy()\<close> and the assignments to the copy are
  what the source does: a reference is an index of the store, \<open>copy\<close> allocates a new
  table, and \<open>df[name] = col\<close> updates the table a reference points to.
\<close>

type_synonym heap = "dataframe list"
type_synonym ref = nat

definition df_copy :: "heap \<Rightarrow> ref \<Rightarrow> heap \<times> ref" where
  "df_copy h r = (h @ [h ! r], length h)"

definition heap_setitem :: "heap \<Rightarrow> ref \<Rightarrow> pystr \<Rightarrow> cell list \<Rightarrow> heap" where
  "heap_setitem h r name col = h[r := df_setitem (h ! r) name col]"

subsection \<open>\<open>enrich_dataframe\<close>\<close>

text \<open>
  The loop \<open>for label in dictionaries\<close>, with
  \<open>df[label] = df["labels"].apply(lambda cats, lbl=label: lbl in cats)\<close> as its body.
\<close>

fun onehot_loop :: "pystr list \<Rightarrow> heap \<Rightarrow> ref \<Rightarrow> pyerr + heap" where
  "onehot_loop [] h df = Inr h"
| "onehot_loop (label # rest) h df =
     (case df_getitem (h ! df) (py ''labels'') of
        Inl e \<Rightarrow> Inl e
      | Inr col \<Rightarrow>
          (case series_apply
                  (\<lambda>cats. case py_in label cats of Inl e \<Rightarrow> Inl e | Inr b \<Rightarrow> Inr (CBool b)) col of
             Inl e \<Rightarrow> Inl e
           | Inr bools \<Rightarrow> onehot_loop rest (heap_setitem h df label bools) df))"

definition enrich_dataframe :: "(pystr \<Rightarrow> pystr) \<Rightarrow> heap \<Rightarrow> ref \<Rightarrow> pyerr + heap \<times> ref" where
  "enrich_dataframe lower h df =
     (if py ''Statement'' \<notin> set (df_columns (h ! df))
      then Inl (ValueError (py ''Input file must contain a 'Statement' column.''))
      else
        let (h1, df1) = df_copy h df in
        case df_getitem (h1 ! df1) (py ''Statement'') of
          Inl e \<Rightarrow> Inl e
        | Inr statements \<Rightarrow>
            (case series_apply
                    (\<lambda>text. case classify_statement lower (Cell text) of
                               Inl e \<Rightarrow> Inl e
                             | Inr matched \<Rightarrow> Inr (CLabels matched)) statements of
               Inl e \<Rightarrow> Inl e
             | Inr labels \<Rightarrow>
                 (case onehot_loop (map fst dictionaries)
                         (heap_setitem h1 df1 (py ''labels'') labels) df1 of
                    Inl e \<Rightarrow> Inl e
                  | Inr h2 \<Rightarrow> Inr (h2, df1))))"

text \<open>
  Modelled from the spec: \<open>enrich_labels_removed\<close>, which the source does not have. It
  is the table without its derived columns, the labels list and the column of each
  dictionary label, as the spec's re-enrichment property uses it.
\<close>

definition enrich_labels_removed :: "dataframe \<Rightarrow> dataframe" where
  "enrich_labels_removed df =
     filter (\<lambda>(name, col). name \<noteq> py ''labels'' \<and> name \<notin> set (map fst dictionaries)) df"

subsection \<open>\<open>get_csv_download\<close>\<close>

text \<open>
  Modelled from the spec: \<open>DataFrame.to_csv(index=False)\<close> is the table library's, not
  code of this repository. The spec has it render the table as comma-separated
  values: a header row with all column names in their current order, then the rows in
  order, booleans in their canonical textual form, a list of labels as its textual
  representation. A missing value (NaN) is an empty field. A field that holds a comma,
  a double quote or a line break is put between double quotes, with its double quotes
  doubled, and a row that is one empty field is written as two double quotes. Each
  line ends with a line feed. \<open>df_rows\<close> reads cell \<open>i\<close> of every column, for a table
  whose columns have \<open>nrows\<close> cells each (\<open>wf_table\<close>).
\<close>

definition df_rows :: "dataframe \<Rightarrow> cell list list" where
  "df_rows df = map (\<lambda>i. map (\<lambda>(name, col). col ! i) df) [0..<nrows df]"

definition csv_text :: "cell \<Rightarrow> pystr" where
  "csv_text c = (if c = CFloat (py ''nan'') then [] else cell_str c)"

definition needs_quote :: "pystr \<Rightarrow> bool" where
  "needs_quote field = list_ex (\<lambda>c. c = 44 \<or> c = 34 \<or> c = 10 \<or> c = 13) field"

definition csv_field :: "pystr \<Rightarrow> pystr" where
  "csv_field field =
     (if needs_quote field
      then [34] @ concat (map (\<lambda>c. if c = 34 then [34, 34] else [c]) field) @ [34]
      else field)"

definition csv_line :: "pystr list \<Rightarrow> pystr" where
  "csv_line fields =
     (if fields = [[]] then [34, 34] else join_str [44] (map csv_field fields)) @ [10]"

definition to_csv :: "dataframe \<Rightarrow> pystr" where
  "to_csv df =
     csv_line (df_columns df) @ concat (map (\<lambda>row. csv_line (map csv_text row)) (df_rows df))"

text \<open>
  \<open>s.encode("utf-8")\<close>: one to four bytes for each code point; a surrogate code point
  (\<open>0xD800\<close> to \<open>0xDFFF\<close>) raises \<open>UnicodeEncodeError\<close>. A \<open>str\<close> has no code point
  above \<open>0x10FFFF\<close>; the model gives the same error there.
\<close>

type_synonym byte = "8 word"

definition utf8_char :: "codepoint \<Rightarrow> pyerr + byte list" where
  "utf8_char c =
     (if c < 0x80 then Inr [of_nat c]
      else if c < 0x800 then Inr [of_nat (0xC0 + c div 64), of_nat (0x80 + c mod 64)]
      else if 0xD800 \<le> c \<and> c \<le> 0xDFFF then Inl UnicodeEncodeError
      else if c < 0x10000 then
        Inr [of_nat (0xE0 + c div 4096), of_nat (0x80 + c div 64 mod 64), of_nat (0x80 + c mod 64)]
      else if c < 0x110000 then
        Inr [of_nat (0xF0 + c div 262144), of_nat (0x80 + c div 4096 mod 64),
             of_nat (0x80 + c div 64 mod 64), of_nat (0x80 + c mod 64)]
      else Inl UnicodeEncodeError)"

fun encode_utf8 :: "pystr \<Rightarrow> pyerr + byte list" where
  "encode_utf8 [] = Inr []"
| "encode_utf8 (c # cs) =
     (case utf8_char c of
        Inl e \<Rightarrow> Inl e
      | Inr bs \<Rightarrow> (case encode_utf8 cs of Inl e \<Rightarrow> Inl e | Inr rest \<Rightarrow> Inr (bs @ rest)))"

text \<open>
  \<open>Path(original_name).stem\<close>, as \<open>pathlib\<close> computes it for a POSIX path: the name is
  the last component of the path, where empty components and \<open>.\<close> components do not
  count; the stem is the name up to its last dot, unless that dot is the first or the
  last character of the name or there is none.
\<close>

fun split_sep :: "codepoint \<Rightarrow> pystr \<Rightarrow> pystr list" where
  "split_sep sep [] = [[]]"
| "split_sep sep (c # cs) =
     (if c = sep then [] # split_sep sep cs
      else (case split_sep sep cs of [] \<Rightarrow> [[c]] | part # parts \<Rightarrow> (c # part) # parts))"

definition path_name :: "pystr \<Rightarrow> pystr" where
  "path_name p =
     (let parts = filter (\<lambda>x. x \<noteq> [] \<and> x \<noteq> py ''.'') (split_sep 47 p)
      in if parts = [] then [] else last parts)"

fun rfind :: "codepoint \<Rightarrow> pystr \<Rightarrow> nat option" where
  "rfind c [] = None"
| "rfind c (x # xs) =
     (case rfind c xs of
        Some i \<Rightarrow> Some (Suc i)
      | None \<Rightarrow> if x = c then Some 0 else None)"

definition path_stem :: "pystr \<Rightarrow> pystr" where
  "path_stem p =
     (let name = path_name p in
      case rfind 46 name of
        None \<Rightarrow> name
      | Some i \<Rightarrow> if 0 < i \<and> i < length name - 1 then take i name else name)"

definition get_csv_download :: "dataframe \<Rightarrow> pystr \<Rightarrow> pyerr + byte list \<times> pystr" where
  "get_csv_download df original_name =
     (case encode_utf8 (to_csv df) of
        Inl e \<Rightarrow> Inl e
      | Inr csv_bytes \<Rightarrow>
          (let new_name = path_stem original_name @ py ''_classified.csv''
           in Inr (csv_bytes, new_name)))"

text \<open>
  Well-formed text: every code point is a Unicode scalar value (no surrogate, none
  above \<open>0x10FFFF\<close>). A table has well-formed text when its column names and the
  text in its cells are well-formed.
\<close>

definition scalar_value :: "codepoint \<Rightarrow> bool" where
  "scalar_value c \<longleftrightarrow> c < 0xD800 \<or> (0xDFFF < c \<and> c < 0x110000)"

definition wf_text :: "pystr \<Rightarrow> bool" where
  "wf_text s \<longleftrightarrow> (\<forall>c\<in>set s. scalar_value c)"

fun wf_cell :: "cell \<Rightarrow> bool" where
  "wf_cell (CStr s) = wf_text s"
| "wf_cell (CInt i) = True"
| "wf_cell (CBool b) = True"
| "wf_cell (CFloat r) = wf_text r"
| "wf_cell (CLabels ls) = (\<forall>l\<in>set ls. wf_text l)"

definition wf_content :: "dataframe \<Rightarrow> bool" where
  "wf_content df \<longleftrightarrow> (\<forall>(name, col)\<in>set df. wf_text name \<and> (\<forall>c\<in>set col. wf_cell c))"

section \<open>Notions used to state the properties\<close>

text \<open>
  \<open>hits\<close>: an entry of the dictionary has a phrase in the lowercased text.
  \<open>labels_of\<close>: the labels of a cell. \<open>enriched\<close>: the table that \<open>enrich_dataframe\<close>
  leaves in the store, as a function of the input table.
\<close>

definition hits :: "pystr \<Rightarrow> pystr \<times> pystr list \<Rightarrow> bool" where
  "hits text_lower item = list_ex (\<lambda>kw. str_contains kw text_lower) (snd item)"

definition labels_of :: "(pystr \<Rightarrow> pystr) \<Rightarrow> cell \<Rightarrow> pystr list" where
  "labels_of lower c = map fst (filter (hits (lower (cell_str c))) dictionaries)"

definition statements_of :: "dataframe \<Rightarrow> cell list" where
  "statements_of df = (case map_of df (py ''Statement'') of None \<Rightarrow> [] | Some col \<Rightarrow> col)"

definition onehot :: "pystr list list \<Rightarrow> pystr \<Rightarrow> cell list" where
  "onehot lss L = map (\<lambda>ls. CBool (L \<in> set ls)) lss"

definition enriched :: "(pystr \<Rightarrow> pystr) \<Rightarrow> dataframe \<Rightarrow> dataframe" where
  "enriched lower df =
     (let lss = map (labels_of lower) (statements_of df)
      in fold (\<lambda>L d. df_setitem d L (onehot lss L)) (map fst dictionaries)
           (df_setitem df (py ''labels'') (map CLabels lss)))"

text \<open>Tables for the concrete evaluations.\<close>

definition example_table :: dataframe where
  "example_table =
     [(py ''Statement'', [CStr (py ''Hurry, VIP sale''), CStr (py ''New line'')]),
      (py ''id'', [CInt 1, CInt 2])]"

definition example_enriched :: dataframe where
  "example_enriched =
     [(py ''Statement'', [CStr (py ''Hurry, VIP sale''), CStr (py ''New line'')]),
      (py ''id'', [CInt 1, CInt 2]),
      (py ''labels'', [CLabels [py ''urgency_marketing'', py ''exclusive_marketing''], CLabels []]),
      (py ''urgency_marketing'', [CBool True, CBool False]),
      (py ''exclusive_marketing'', [CBool True, CBool False])]"

definition clash_table :: dataframe where
  "clash_table =
     [(py ''Statement'', [CStr (py ''hurry'')]),
      (py ''labels'', [CStr (py ''mine'')])]"

definition clash_enriched :: dataframe where
  "clash_enriched =
     [(py ''Statement'', [CStr (py ''hurry'')]),
      (py ''labels'', [CLabels [py ''urgency_marketing'']]),
      (py ''urgency_marketing'', [CBool True]),
      (py ''exclusive_marketing'', [CBool False])]"

section \<open>Properties of \<open>classify_statement\<close>\<close>

lemma startswith_iff: "startswith kw s \<longleftrightarrow> (\<exists>suf. s = kw @ suf)"
  by (induction kw s rule: startswith.induct) auto

lemma str_contains_iff: "str_contains kw s \<longleftrightarrow> (\<exists>pre suf. s = pre @ kw @ suf)"
proof (induction s)
  case Nil
  then show ?case by auto
next
  case (Cons c cs)
  show ?case
  proof
    assume "str_contains kw (c # cs)"
    then consider "startswith kw (c # cs)" | "str_contains kw cs" by auto
    then show "\<exists>pre suf. c # cs = pre @ kw @ suf"
    proof cases
      case 1
      then obtain suf where "c # cs = kw @ suf" by (auto simp: startswith_iff)
      then have "c # cs = [] @ kw @ suf" by simp
      then show ?thesis by blast
    next
      case 2
      then obtain pre suf where "cs = pre @ kw @ suf" using Cons.IH by blast
      then have "c # cs = (c # pre) @ kw @ suf" by simp
      then show ?thesis by blast
    qed
  next
    assume "\<exists>pre suf. c # cs = pre @ kw @ suf"
    then obtain pre suf where eq: "c # cs = pre @ kw @ suf" by blast
    show "str_contains kw (c # cs)"
    proof (cases pre)
      case Nil
      with eq have "startswith kw (c # cs)" by (auto simp: startswith_iff)
      then show ?thesis by simp
    next
      case (Cons p ps)
      with eq have "cs = ps @ kw @ suf" by simp
      then have "str_contains kw cs" using Cons.IH by blast
      then show ?thesis by simp
    qed
  qed
qed

lemma classify_loop_filter:
  "classify_loop items t matched = matched @ map fst (filter (hits t) items)"
  by (induction items t matched rule: classify_loop.induct) (auto simp: hits_def)

lemma classify_statement_filter:
  "py_str v = Inr s \<Longrightarrow>
   classify_statement lower v = Inr (map fst (filter (hits (lower s)) dictionaries))"
  by (simp add: classify_statement_def classify_loop_filter)

lemma distinct_labels: "distinct (map fst dictionaries)"
  by (simp add: dictionaries_def py_def)

lemma hits_member:
  assumes "(L, kws) \<in> set dictionaries"
  shows "L \<in> set (map fst (filter (hits t) dictionaries)) \<longleftrightarrow> hits t (L, kws)"
proof
  assume "L \<in> set (map fst (filter (hits t) dictionaries))"
  then obtain kws' where m: "(L, kws') \<in> set dictionaries" and h: "hits t (L, kws')"
    by auto
  from distinct_labels m assms have "kws' = kws" by (rule eq_key_imp_eq_value)
  with h show "hits t (L, kws)" by simp
next
  assume "hits t (L, kws)"
  with assms show "L \<in> set (map fst (filter (hits t) dictionaries))" by force
qed

lemma filter_keys_hits:
  "filter (\<lambda>L. L \<in> set (map fst (filter (hits t) dictionaries))) (map fst dictionaries)
     = map fst (filter (hits t) dictionaries)"
proof -
  have "filter (\<lambda>L. L \<in> set (map fst (filter (hits t) dictionaries))) (map fst dictionaries)
          = map fst (filter (\<lambda>x. fst x \<in> set (map fst (filter (hits t) dictionaries))) dictionaries)"
    by (simp add: filter_map comp_def)
  also have "filter (\<lambda>x. fst x \<in> set (map fst (filter (hits t) dictionaries))) dictionaries
          = filter (hits t) dictionaries"
  proof (rule filter_cong[OF refl])
    fix x assume "x \<in> set dictionaries"
    then have "(fst x, snd x) \<in> set dictionaries" by simp
    from hits_member[OF this] show "(fst x \<in> set (map fst (filter (hits t) dictionaries))) = hits t x"
      by simp
  qed
  finally show ?thesis .
qed

lemma keywords_lowercase:
  assumes "(L, kws) \<in> set dictionaries" and "kw \<in> set kws"
  shows "ascii_lower kw = kw"
proof -
  have "\<forall>kw\<in>set urgency_keywords. ascii_lower kw = kw"
    by (simp add: urgency_keywords_def ascii_lower_def py_def)
  moreover have "\<forall>kw\<in>set exclusive_keywords. ascii_lower kw = kw"
    by (simp add: exclusive_keywords_def ascii_lower_def py_def)
  ultimately show ?thesis using assms by (auto simp: dictionaries_def)
qed

lemma map_contains:
  "(\<exists>pre suf. map f s = pre @ kw @ suf) \<longleftrightarrow>
   (\<exists>pre mid suf. s = pre @ mid @ suf \<and> map f mid = kw)"
proof
  assume "\<exists>pre suf. map f s = pre @ kw @ suf"
  then obtain pre suf where "map f s = pre @ (kw @ suf)" by blast
  then have "\<exists>a r. s = a @ r \<and> pre = map f a \<and> kw @ suf = map f r"
    by (simp only: map_eq_append_conv)
  then obtain a r where s: "s = a @ r" and "kw @ suf = map f r" by blast
  then have "\<exists>m b. r = m @ b \<and> kw = map f m \<and> suf = map f b"
    by (simp only: append_eq_map_conv)
  then obtain m b where "r = m @ b" and "map f m = kw" by blast
  with s show "\<exists>pre mid suf. s = pre @ mid @ suf \<and> map f mid = kw" by blast
next
  assume "\<exists>pre mid suf. s = pre @ mid @ suf \<and> map f mid = kw"
  then obtain pre mid suf where "s = pre @ mid @ suf" and "map f mid = kw" by blast
  then have "map f s = map f pre @ kw @ map f suf" by simp
  then show "\<exists>pre suf. map f s = pre @ kw @ suf" by blast
qed

lemma ascii_contains:
  assumes "ascii_lower kw = kw"
  shows "(\<exists>pre suf. ascii_lower s = pre @ kw @ suf) \<longleftrightarrow>
         (\<exists>pre mid suf. s = pre @ mid @ suf \<and> ascii_lower mid = ascii_lower kw)"
  unfolding assms unfolding ascii_lower_def by (rule map_contains)

text \<open>
  Claim C1. For a text input \<open>v\<close>, with \<open>s\<close> its text (\<open>str(v)\<close>), and a label \<open>L\<close> of the
  dictionary with phrases \<open>kws\<close>: \<open>L\<close> is in the result of \<open>classify_statement\<close> if and
  only if some phrase of \<open>kws\<close> is a contiguous part of the lowercased text. Where
  lowercasing the text is the ASCII lowercasing (as for every ASCII text), this says
  that some contiguous part of the text itself equals a phrase up to letter case.
  Nothing asks for a word boundary around the phrase; the witness has \<open>vip\<close> inside a
  larger word, in mixed case.
\<close>

theorem classify_statement_matches:
  assumes "py_str v = Inr s" and "(L, kws) \<in> set dictionaries"
  shows "\<exists>ls. classify_statement lower v = Inr ls \<and>
           (L \<in> set ls \<longleftrightarrow> (\<exists>kw\<in>set kws. \<exists>pre suf. lower s = pre @ kw @ suf)) \<and>
           (lower s = ascii_lower s \<longrightarrow>
              (L \<in> set ls \<longleftrightarrow>
                 (\<exists>kw\<in>set kws. \<exists>pre mid suf. s = pre @ mid @ suf \<and> ascii_lower mid = ascii_lower kw)))"
proof -
  let ?ls = "map fst (filter (hits (lower s)) dictionaries)"
  have r: "classify_statement lower v = Inr ?ls"
    using assms(1) by (rule classify_statement_filter)
  have m: "L \<in> set ?ls \<longleftrightarrow> (\<exists>kw\<in>set kws. \<exists>pre suf. lower s = pre @ kw @ suf)"
    using hits_member[OF assms(2), of "lower s"]
    by (simp add: hits_def list_ex_iff str_contains_iff)
  have c: "L \<in> set ?ls \<longleftrightarrow>
             (\<exists>kw\<in>set kws. \<exists>pre mid suf. s = pre @ mid @ suf \<and> ascii_lower mid = ascii_lower kw)"
    if l: "lower s = ascii_lower s"
  proof -
    have "(\<exists>kw\<in>set kws. \<exists>pre suf. ascii_lower s = pre @ kw @ suf) \<longleftrightarrow>
          (\<exists>kw\<in>set kws. \<exists>pre mid suf. s = pre @ mid @ suf \<and> ascii_lower mid = ascii_lower kw)"
      by (rule bex_cong[OF refl]) (rule ascii_contains[OF keywords_lowercase[OF assms(2)]])
    with m l show ?thesis by simp
  qed
  from r m c show ?thesis by blast
qed

theorem classify_statement_matches_witness:
  "py_str (Cell (CStr (py ''An EquiVIP deal''))) = Inr (py ''An EquiVIP deal'') \<and>
   (py ''exclusive_marketing'', exclusive_keywords) \<in> set dictionaries \<and>
   classify_statement ascii_lower (Cell (CStr (py ''An EquiVIP deal''))) = Inr [py ''exclusive_marketing''] \<and>
   (\<exists>ls. classify_statement ascii_lower (Cell (CStr (py ''An EquiVIP deal''))) = Inr ls \<and>
      (py ''exclusive_marketing'' \<in> set ls \<longleftrightarrow>
        (\<exists>kw\<in>set exclusive_keywords. \<exists>pre suf. ascii_lower (py ''An EquiVIP deal'') = pre @ kw @ suf)) \<and>
      (py ''exclusive_marketing'' \<in> set ls \<longleftrightarrow>
        (\<exists>kw\<in>set exclusive_keywords. \<exists>pre mid suf.
            py ''An EquiVIP deal'' = pre @ mid @ suf \<and> ascii_lower mid = ascii_lower kw)))"
proof -
  have h1: "py_str (Cell (CStr (py ''An EquiVIP deal''))) = Inr (py ''An EquiVIP deal'')" by simp
  have h2: "(py ''exclusive_marketing'', exclusive_keywords) \<in> set dictionaries"
    by (simp add: dictionaries_def)
  have h3: "classify_statement ascii_lower (Cell (CStr (py ''An EquiVIP deal''))) = Inr [py ''exclusive_marketing'']"
    by (simp add: classify_statement_def dictionaries_def urgency_keywords_def exclusive_keywords_def py_def ascii_lower_def)
  show ?thesis
    using classify_statement_matches[OF h1 h2, of ascii_lower] h1 h2 h3 by blast
qed

text \<open>
  Claim C8. The list that \<open>classify_statement\<close> returns has no label twice, and it is
  the list of the dictionary's labels, in the dictionary's iteration order, restricted
  to the labels that matched.
\<close>

theorem classify_statement_order:
  assumes "py_str v = Inr s"
  shows "\<exists>ls. classify_statement lower v = Inr ls \<and> distinct ls \<and>
           ls = filter (\<lambda>L. L \<in> set ls) (map fst dictionaries)"
proof -
  let ?ls = "map fst (filter (hits (lower s)) dictionaries)"
  have "classify_statement lower v = Inr ?ls"
    using assms by (rule classify_statement_filter)
  moreover have "distinct ?ls"
    using distinct_labels by (rule distinct_map_filter)
  moreover have "?ls = filter (\<lambda>L. L \<in> set ?ls) (map fst dictionaries)"
    by (rule filter_keys_hits[symmetric])
  ultimately show ?thesis by blast
qed

theorem classify_statement_order_witness:
  "py_str (Cell (CStr (py ''Exclusive offer: act now!''))) = Inr (py ''Exclusive offer: act now!'') \<and>
   (\<exists>ls. classify_statement ascii_lower (Cell (CStr (py ''Exclusive offer: act now!''))) = Inr ls \<and>
      distinct ls \<and> ls = filter (\<lambda>L. L \<in> set ls) (map fst dictionaries)) \<and>
   classify_statement ascii_lower (Cell (CStr (py ''Exclusive offer: act now!'')))
     = Inr [py ''urgency_marketing'', py ''exclusive_marketing'']"
proof -
  have h1: "py_str (Cell (CStr (py ''Exclusive offer: act now!''))) = Inr (py ''Exclusive offer: act now!'')"
    by simp
  have h3: "classify_statement ascii_lower (Cell (CStr (py ''Exclusive offer: act now!'')))
     = Inr [py ''urgency_marketing'', py ''exclusive_marketing'']"
    by (simp add: classify_statement_def dictionaries_def urgency_keywords_def exclusive_keywords_def py_def ascii_lower_def)
  show ?thesis
    using classify_statement_order[OF h1, of ascii_lower] h1 h3 by blast
qed

text \<open>
  Claim C9. \<open>classify_statement\<close> returns a list and raises nothing for every input
  that \<open>str\<close> turns into text, and the result is the one for that text: the input
  is coerced before matching. Every cell (text, the empty string, a number, Unicode
  text) is such an input.
\<close>

theorem classify_statement_total:
  "(py_str v = Inr s \<longrightarrow>
      (\<exists>ls. classify_statement lower v = Inr ls \<and>
            classify_statement lower (Cell (CStr s)) = Inr ls)) \<and>
   (\<exists>ls. classify_statement lower (Cell c) = Inr ls)"
  by (simp add: classify_statement_def)

theorem classify_statement_total_witness:
  "py_str (Cell (CInt 2024)) = Inr (py ''2024'') \<and>
   classify_statement ascii_lower (Cell (CInt 2024)) = Inr [] \<and>
   classify_statement ascii_lower (Cell (CStr (py ''2024''))) = Inr [] \<and>
   classify_statement ascii_lower (Cell (CStr [])) = Inr [] \<and>
   classify_statement ascii_lower (Cell (CStr [20320, 22909, 233, 128293])) = Inr []"
proof -
  have h1: "py_str (Cell (CInt 2024)) = Inr (py ''2024'')"
    by (simp add: int_str_def digits10.simps py_def)
  have e: "classify_statement ascii_lower (Cell (CStr [])) = Inr []"
    by (simp add: classify_statement_def dictionaries_def urgency_keywords_def exclusive_keywords_def py_def ascii_lower_def)
  have u: "classify_statement ascii_lower (Cell (CStr [20320, 22909, 233, 128293])) = Inr []"
    by (simp add: classify_statement_def dictionaries_def urgency_keywords_def exclusive_keywords_def py_def ascii_lower_def)
  have n: "classify_statement ascii_lower (Cell (CStr (py ''2024''))) = Inr []"
    by (simp add: classify_statement_def dictionaries_def urgency_keywords_def exclusive_keywords_def py_def ascii_lower_def)
  from classify_statement_total[of "Cell (CInt 2024)" "py ''2024''" ascii_lower] h1 n
  have "classify_statement ascii_lower (Cell (CInt 2024)) = Inr []" by auto
  with h1 e u n show ?thesis by simp
qed

section \<open>Properties of \<open>enrich_dataframe\<close>\<close>

lemma series_apply_total:
  "(\<And>x. x \<in> set xs \<Longrightarrow> f x = Inr (g x)) \<Longrightarrow> series_apply f xs = Inr (map g xs)"
  by (induction xs) auto

lemma classify_statement_cell:
  "classify_statement lower (Cell c) = Inr (labels_of lower c)"
  by (simp add: classify_statement_filter labels_of_def)

lemma map_of_replace_other:
  "k \<noteq> name \<Longrightarrow>
   map_of (map (\<lambda>(n, c). if n = name then (n, col) else (n, c)) d) k = map_of d k"
  by (induction d) auto

lemma map_of_replace_same:
  "name \<in> fst ` set d \<Longrightarrow>
   map_of (map (\<lambda>(n, c). if n = name then (n, col) else (n, c)) d) name = Some col"
  by (induction d) auto

lemma map_of_df_setitem: "map_of (df_setitem df name col) = (map_of df)(name \<mapsto> col)"
proof (cases "name \<in> set (df_columns df)")
  case True
  show ?thesis
  proof
    fix k
    show "map_of (df_setitem df name col) k = ((map_of df)(name \<mapsto> col)) k"
      using True
      by (cases "k = name") (simp_all add: df_setitem_def df_columns_def map_of_replace_other map_of_replace_same)
  qed
next
  case False
  then have "map_of df name = None" by (simp add: df_columns_def map_of_eq_None_iff)
  with False show ?thesis
    by (auto simp: df_setitem_def map_add_def fun_eq_iff split: option.splits)
qed

lemma df_getitem_setitem:
  "df_getitem (df_setitem df name col) n = (if n = name then Inr col else df_getitem df n)"
  by (simp add: df_getitem_def map_of_df_setitem)

lemma df_getitem_fold:
  "df_getitem (fold (\<lambda>L d. df_setitem d L (g L)) ks d0) n =
     (if n \<in> set ks then Inr (g n) else df_getitem d0 n)"
  by (induction ks arbitrary: d0) (auto simp: df_getitem_setitem)

lemma fold_setitem_fresh:
  "distinct ks \<Longrightarrow> set ks \<inter> set (df_columns d0) = {} \<Longrightarrow>
   fold (\<lambda>L d. df_setitem d L (g L)) ks d0 = d0 @ map (\<lambda>L. (L, g L)) ks"
proof (induction ks arbitrary: d0)
  case Nil
  then show ?case by simp
next
  case (Cons k ks)
  from Cons.prems have k: "k \<notin> set (df_columns d0)" by auto
  then have s: "df_setitem d0 k (g k) = d0 @ [(k, g k)]" by (simp add: df_setitem_def)
  from Cons.prems have "set ks \<inter> set (df_columns (d0 @ [(k, g k)])) = {}"
    by (auto simp: df_columns_def)
  with Cons.IH[of "d0 @ [(k, g k)]"] Cons.prems(1) s show ?case by simp
qed

lemma onehot_loop_fold:
  assumes "py ''labels'' \<notin> set ks" and "df < length h"
    and "df_getitem (h ! df) (py ''labels'') = Inr (map CLabels lss)"
  shows "onehot_loop ks h df = Inr (h[df := fold (\<lambda>L d. df_setitem d L (onehot lss L)) ks (h ! df)])"
  using assms
proof (induction ks arbitrary: h)
  case Nil
  then show ?case by simp
next
  case (Cons k ks)
  have ap: "series_apply (\<lambda>cats. case py_in k cats of Inl e \<Rightarrow> Inl e | Inr b \<Rightarrow> Inr (CBool b))
              (map CLabels lss) = Inr (onehot lss k)"
    unfolding onehot_def by (induction lss) auto
  let ?h = "heap_setitem h df k (onehot lss k)"
  from Cons.prems have ne: "py ''labels'' \<noteq> k" by auto
  have 1: "df < length ?h" using Cons.prems(2) by (simp add: heap_setitem_def)
  have 2: "?h ! df = df_setitem (h ! df) k (onehot lss k)"
    using Cons.prems(2) by (simp add: heap_setitem_def)
  have 3: "df_getitem (?h ! df) (py ''labels'') = Inr (map CLabels lss)"
    using ne Cons.prems(3) by (simp add: 2 df_getitem_setitem)
  from Cons.prems(1) have 0: "py ''labels'' \<notin> set ks" by simp
  from Cons.IH[OF 0 1 3] show ?case
    using Cons.prems(3) ap by (simp add: 2) (simp add: heap_setitem_def)
qed

lemma labels_not_key: "py ''labels'' \<notin> set (map fst dictionaries)"
  by (simp add: dictionaries_def py_def)

lemma statement_not_key: "py ''Statement'' \<notin> set (map fst dictionaries)"
  by (simp add: dictionaries_def py_def)

lemma statement_not_labels: "py ''Statement'' \<noteq> py ''labels''"
  by (simp add: py_def)

lemma df_getitem_statements:
  "py ''Statement'' \<in> set (df_columns df) \<Longrightarrow> df_getitem df (py ''Statement'') = Inr (statements_of df)"
  by (auto simp: df_getitem_def statements_of_def df_columns_def map_of_eq_None_iff split: option.splits)

lemma enrich_dataframe_enriched:
  assumes "df < length h" and "py ''Statement'' \<in> set (df_columns (h ! df))"
  shows "enrich_dataframe lower h df = Inr (h @ [enriched lower (h ! df)], length h)"
proof -
  define lss where "lss = map (labels_of lower) (statements_of (h ! df))"
  define h2 where "h2 = heap_setitem (h @ [h ! df]) (length h) (py ''labels'') (map CLabels lss)"
  have ap: "series_apply (\<lambda>text. case classify_statement lower (Cell text) of
                               Inl e \<Rightarrow> Inl e
                             | Inr matched \<Rightarrow> Inr (CLabels matched)) (statements_of (h ! df))
             = Inr (map CLabels lss)"
    using series_apply_total[of "statements_of (h ! df)" _ "\<lambda>c. CLabels (labels_of lower c)"]
    by (simp add: classify_statement_cell comp_def lss_def)
  have h2: "h2 = h @ [df_setitem (h ! df) (py ''labels'') (map CLabels lss)]"
    by (simp add: h2_def heap_setitem_def)
  have g: "df_getitem (h2 ! length h) (py ''labels'') = Inr (map CLabels lss)"
    by (simp add: h2 df_getitem_setitem)
  have l: "length h < length h2" by (simp add: h2)
  have "onehot_loop (map fst dictionaries) h2 (length h) =
          Inr (h2[length h := fold (\<lambda>L d. df_setitem d L (onehot lss L)) (map fst dictionaries) (h2 ! length h)])"
    by (rule onehot_loop_fold[OF labels_not_key l g])
  also have "h2[length h := fold (\<lambda>L d. df_setitem d L (onehot lss L)) (map fst dictionaries) (h2 ! length h)]
          = h @ [enriched lower (h ! df)]"
    by (simp add: h2 enriched_def Let_def lss_def)
  finally have loop: "onehot_loop (map fst dictionaries) h2 (length h) = Inr (h @ [enriched lower (h ! df)])" .
  show ?thesis
    using assms(2) ap loop
    by (simp add: enrich_dataframe_def df_copy_def df_getitem_statements h2_def)
qed

lemma enriched_getitem_key:
  "L \<in> set (map fst dictionaries) \<Longrightarrow>
   df_getitem (enriched lower T) L = Inr (onehot (map (labels_of lower) (statements_of T)) L)"
  by (simp add: enriched_def Let_def df_getitem_fold del: set_map)

lemma enriched_getitem_labels:
  "df_getitem (enriched lower T) (py ''labels'') =
     Inr (map CLabels (map (labels_of lower) (statements_of T)))"
  using labels_not_key
  by (simp add: enriched_def Let_def df_getitem_fold df_getitem_setitem del: set_map)

lemma enriched_getitem_other:
  "n \<noteq> py ''labels'' \<Longrightarrow> n \<notin> set (map fst dictionaries) \<Longrightarrow>
   df_getitem (enriched lower T) n = df_getitem T n"
  by (simp add: enriched_def Let_def df_getitem_fold df_getitem_setitem del: set_map)

lemma enriched_fresh:
  assumes "py ''labels'' \<notin> set (df_columns T)"
    and "set (map fst dictionaries) \<inter> set (df_columns T) = {}"
  shows "enriched lower T =
           T @ [(py ''labels'', map CLabels (map (labels_of lower) (statements_of T)))]
             @ map (\<lambda>L. (L, onehot (map (labels_of lower) (statements_of T)) L)) (map fst dictionaries)"
proof -
  let ?lab = "map CLabels (map (labels_of lower) (statements_of T))"
  have s: "df_setitem T (py ''labels'') ?lab = T @ [(py ''labels'', ?lab)]"
    using assms(1) by (simp add: df_setitem_def)
  have "set (map fst dictionaries) \<inter> set (df_columns (T @ [(py ''labels'', ?lab)])) = {}"
    using assms(2) labels_not_key by (auto simp: df_columns_def)
  from fold_setitem_fresh[OF distinct_labels this] s show ?thesis
    by (simp add: enriched_def Let_def)
qed


lemmas eval_defs =
  enrich_dataframe_def df_copy_def heap_setitem_def df_getitem_def df_setitem_def df_columns_def
  classify_statement_def dictionaries_def urgency_keywords_def exclusive_keywords_def
  py_def ascii_lower_def wf_table_def nrows_def

text \<open>
  Claim C4. When the table has no column named \<open>Statement\<close>, \<open>enrich_dataframe\<close> fails
  with the \<open>ValueError\<close> of its first statement, whatever the rows are (none or many):
  the check is made once, before the copy and before any row is classified.
\<close>

theorem enrich_dataframe_missing_column:
  "df < length h \<Longrightarrow> py ''Statement'' \<notin> set (df_columns (h ! df)) \<Longrightarrow>
   enrich_dataframe lower h df =
     Inl (ValueError (py ''Input file must contain a 'Statement' column.''))"
  by (simp add: enrich_dataframe_def)

theorem enrich_dataframe_missing_column_witness:
  "0 < length [[(py ''Text'', [])]] \<and>
   py ''Statement'' \<notin> set (df_columns ([[(py ''Text'', [])]] ! 0)) \<and>
   enrich_dataframe ascii_lower [[(py ''Text'', [])]] 0 =
     Inl (ValueError (py ''Input file must contain a 'Statement' column.'')) \<and>
   0 < length
      [[(py ''Text'', [CStr (py ''act now''), CStr (py ''vip''), CStr (py ''hurry'')]),
        (py ''statement'', [CInt 1, CInt 2, CInt 3])]] \<and>
   py ''Statement'' \<notin> set (df_columns
      ([[(py ''Text'', [CStr (py ''act now''), CStr (py ''vip''), CStr (py ''hurry'')]),
         (py ''statement'', [CInt 1, CInt 2, CInt 3])]] ! 0)) \<and>
   enrich_dataframe ascii_lower
      [[(py ''Text'', [CStr (py ''act now''), CStr (py ''vip''), CStr (py ''hurry'')]),
        (py ''statement'', [CInt 1, CInt 2, CInt 3])]] 0 =
     Inl (ValueError (py ''Input file must contain a 'Statement' column.''))"
proof -
  have a0: "0 < length [[(py ''Text'', [] :: cell list)]]" by simp
  have a: "py ''Statement'' \<notin> set (df_columns ([[(py ''Text'', [])]] ! 0))"
    by (simp add: df_columns_def py_def)
  have b0: "0 < length
      [[(py ''Text'', [CStr (py ''act now''), CStr (py ''vip''), CStr (py ''hurry'')]),
        (py ''statement'', [CInt 1, CInt 2, CInt 3])]]" by simp
  have b: "py ''Statement'' \<notin> set (df_columns
      ([[(py ''Text'', [CStr (py ''act now''), CStr (py ''vip''), CStr (py ''hurry'')]),
         (py ''statement'', [CInt 1, CInt 2, CInt 3])]] ! 0))"
    by (simp add: df_columns_def py_def)
  show ?thesis
    using enrich_dataframe_missing_column[OF a0 a, of ascii_lower]
      enrich_dataframe_missing_column[OF b0 b, of ascii_lower] a0 a b0 b
    by blast
qed

lemma statements_of_length:
  assumes "wf_table T" and "py ''Statement'' \<in> set (df_columns T)"
  shows "length (statements_of T) = nrows T"
proof -
  from assms(2) have "map_of T (py ''Statement'') \<noteq> None"
    by (simp add: df_columns_def map_of_eq_None_iff)
  then obtain col where m: "map_of T (py ''Statement'') = Some col" by blast
  then have "(py ''Statement'', col) \<in> set T" by (rule map_of_SomeD)
  with assms(1) have "length col = nrows T" by (auto simp: wf_table_def)
  with m show ?thesis by (simp add: statements_of_def)
qed

lemma nrows_append: "T \<noteq> [] \<Longrightarrow> nrows (T @ U) = nrows T"
  by (cases T) (auto simp: nrows_def)

lemma wf_table_enriched:
  assumes "wf_table T" and "py ''Statement'' \<in> set (df_columns T)"
    and "py ''labels'' \<notin> set (df_columns T)"
    and "set (map fst dictionaries) \<inter> set (df_columns T) = {}"
  shows "wf_table (enriched lower T) \<and> nrows (enriched lower T) = nrows T"
proof -
  define lss where "lss = map (labels_of lower) (statements_of T)"
  have e: "enriched lower T =
           T @ [(py ''labels'', map CLabels lss)] @ map (\<lambda>L. (L, onehot lss L)) (map fst dictionaries)"
    unfolding lss_def by (rule enriched_fresh[OF assms(3,4)])
  from assms(2) have ne: "T \<noteq> []" by (auto simp: df_columns_def)
  have n: "nrows (enriched lower T) = nrows T"
    unfolding e by (rule nrows_append[OF ne])
  have len: "length lss = nrows T"
    using statements_of_length[OF assms(1,2)] by (simp add: lss_def)
  have cols: "df_columns (enriched lower T) = df_columns T @ [py ''labels''] @ map fst dictionaries"
    unfolding e by (simp add: df_columns_def comp_def)
  have d: "distinct (df_columns (enriched lower T))"
    unfolding cols using assms(1,3,4) distinct_labels labels_not_key
    by (auto simp: wf_table_def)
  have "\<forall>(name, col)\<in>set (enriched lower T). length col = nrows T"
    unfolding e using assms(1) len by (auto simp: wf_table_def onehot_def)
  with d n show ?thesis by (simp add: wf_table_def)
qed

text \<open>
  Claim C3, amended. For a table with a \<open>Statement\<close> column and no column named
  \<open>labels\<close> or named as a dictionary label, \<open>enrich_dataframe\<close> returns a table with the
  same number of rows, whose first columns are the original columns, unchanged and in
  the same order, followed by the \<open>labels\<close> column (row \<open>i\<close> holds the classification of
  statement \<open>i\<close>) and then by exactly one column of booleans for each label of the
  dictionary, in the dictionary's order.
\<close>

theorem enrich_dataframe_preserves:
  assumes "df < length h" and "wf_table (h ! df)"
    and "py ''Statement'' \<in> set (df_columns (h ! df))"
    and "py ''labels'' \<notin> set (df_columns (h ! df))"
    and "set (map fst dictionaries) \<inter> set (df_columns (h ! df)) = {}"
  shows "\<exists>h' df'. enrich_dataframe lower h df = Inr (h', df') \<and>
           wf_table (h' ! df') \<and> nrows (h' ! df') = nrows (h ! df) \<and>
           take (length (h ! df)) (h' ! df') = h ! df \<and>
           df_columns (h' ! df') = df_columns (h ! df) @ [py ''labels''] @ map fst dictionaries \<and>
           (\<exists>statements lss.
              df_getitem (h ! df) (py ''Statement'') = Inr statements \<and>
              length lss = length statements \<and>
              (\<forall>i<length statements. classify_statement lower (Cell (statements ! i)) = Inr (lss ! i)) \<and>
              df_getitem (h' ! df') (py ''labels'') = Inr (map CLabels lss)) \<and>
           (\<forall>L\<in>set (map fst dictionaries).
              \<exists>bs. length bs = nrows (h ! df) \<and> df_getitem (h' ! df') L = Inr (map CBool bs))"
proof -
  let ?T = "h ! df"
  define lss where "lss = map (labels_of lower) (statements_of ?T)"
  have r: "enrich_dataframe lower h df = Inr (h @ [enriched lower ?T], length h)"
    by (rule enrich_dataframe_enriched[OF assms(1,3)])
  have e: "enriched lower ?T =
           ?T @ [(py ''labels'', map CLabels lss)] @ map (\<lambda>L. (L, onehot lss L)) (map fst dictionaries)"
    unfolding lss_def by (rule enriched_fresh[OF assms(4,5)])
  have w: "wf_table (enriched lower ?T) \<and> nrows (enriched lower ?T) = nrows ?T"
    by (rule wf_table_enriched[OF assms(2-5)])
  have t: "take (length ?T) (enriched lower ?T) = ?T" unfolding e by simp
  have c: "df_columns (enriched lower ?T) = df_columns ?T @ [py ''labels''] @ map fst dictionaries"
    unfolding e by (simp add: df_columns_def comp_def)
  have len: "length lss = nrows ?T"
    using statements_of_length[OF assms(2,3)] by (simp add: lss_def)
  have l: "\<exists>statements lss.
              df_getitem ?T (py ''Statement'') = Inr statements \<and>
              length lss = length statements \<and>
              (\<forall>i<length statements. classify_statement lower (Cell (statements ! i)) = Inr (lss ! i)) \<and>
              df_getitem (enriched lower ?T) (py ''labels'') = Inr (map CLabels lss)"
  proof (intro exI conjI)
    show "df_getitem ?T (py ''Statement'') = Inr (statements_of ?T)"
      by (rule df_getitem_statements[OF assms(3)])
    show "length lss = length (statements_of ?T)" by (simp add: lss_def)
    show "\<forall>i<length (statements_of ?T).
            classify_statement lower (Cell (statements_of ?T ! i)) = Inr (lss ! i)"
      by (simp add: lss_def classify_statement_cell)
    show "df_getitem (enriched lower ?T) (py ''labels'') = Inr (map CLabels lss)"
      unfolding lss_def by (rule enriched_getitem_labels)
  qed
  have b: "\<forall>L\<in>set (map fst dictionaries).
              \<exists>bs. length bs = nrows ?T \<and> df_getitem (enriched lower ?T) L = Inr (map CBool bs)"
  proof
    fix L assume L: "L \<in> set (map fst dictionaries)"
    have "df_getitem (enriched lower ?T) L = Inr (map CBool (map (\<lambda>ls. L \<in> set ls) lss))"
      using enriched_getitem_key[OF L, of lower ?T] by (simp add: onehot_def lss_def comp_def)
    moreover have "length (map (\<lambda>ls. L \<in> set ls) lss) = nrows ?T" using len by simp
    ultimately show "\<exists>bs. length bs = nrows ?T \<and> df_getitem (enriched lower ?T) L = Inr (map CBool bs)"
      by blast
  qed
  show ?thesis
    using r w t c l b by simp
qed

text \<open>
  Claim C5. In the enriched table, for every label \<open>L\<close> of the dictionary, the column
  named \<open>L\<close> holds in each row the boolean \<open>L in cats\<close>, where \<open>cats\<close> is the list in the
  \<open>labels\<close> column of the same row: a function of that list and \<open>L\<close> alone.
\<close>

theorem enrich_dataframe_onehot:
  assumes "df < length h" and "wf_table (h ! df)"
    and "py ''Statement'' \<in> set (df_columns (h ! df))"
  shows "\<exists>h' df' lss. enrich_dataframe lower h df = Inr (h', df') \<and>
           length lss = nrows (h ! df) \<and>
           df_getitem (h' ! df') (py ''labels'') = Inr (map CLabels lss) \<and>
           (\<forall>L\<in>set (map fst dictionaries).
              df_getitem (h' ! df') L = Inr (map (\<lambda>cats. CBool (L \<in> set cats)) lss))"
proof -
  let ?T = "h ! df"
  let ?lss = "map (labels_of lower) (statements_of ?T)"
  have r: "enrich_dataframe lower h df = Inr (h @ [enriched lower ?T], length h)"
    by (rule enrich_dataframe_enriched[OF assms(1,3)])
  have len: "length ?lss = nrows ?T"
    using statements_of_length[OF assms(2,3)] by simp
  have l: "df_getitem (enriched lower ?T) (py ''labels'') = Inr (map CLabels ?lss)"
    by (rule enriched_getitem_labels)
  have b: "\<forall>L\<in>set (map fst dictionaries).
             df_getitem (enriched lower ?T) L = Inr (map (\<lambda>cats. CBool (L \<in> set cats)) ?lss)"
    using enriched_getitem_key[of _ lower ?T] by (simp add: onehot_def del: set_map)
  from r len l b show ?thesis
    by (intro exI[of _ "h @ [enriched lower ?T]"] exI[of _ "length h"] exI[of _ ?lss]) simp
qed

text \<open>
  Claim C6. \<open>enrich_dataframe\<close> returns a reference to a new table, different from the
  reference it was given and from every reference that existed before the call, and
  every table that existed before the call, the input among them, is unchanged in the
  store after it.
\<close>

theorem enrich_dataframe_no_mutation:
  assumes "df < length h" and "wf_table (h ! df)"
    and "py ''Statement'' \<in> set (df_columns (h ! df))"
  shows "\<exists>h' df'. enrich_dataframe lower h df = Inr (h', df') \<and>
           df' \<noteq> df \<and> length h \<le> df' \<and> df' < length h' \<and>
           (\<forall>r<length h. h' ! r = h ! r)"
proof -
  have r: "enrich_dataframe lower h df = Inr (h @ [enriched lower (h ! df)], length h)"
    by (rule enrich_dataframe_enriched[OF assms(1,3)])
  show ?thesis
    using assms(1) by (simp add: r nth_append)
qed

lemma statements_of_removed:
  "statements_of (enrich_labels_removed (enriched lower T)) = statements_of T"
proof -
  let ?P = "\<lambda>name (col :: cell list). name \<noteq> py ''labels'' \<and> name \<notin> set (map fst dictionaries)"
  have g: "df_getitem (enriched lower T) (py ''Statement'') = df_getitem T (py ''Statement'')"
    using statement_not_labels statement_not_key by (rule enriched_getitem_other)
  have "map_of (filter (\<lambda>(name, col). ?P name col) (enriched lower T)) (py ''Statement'')
          = map_of (enriched lower T) (py ''Statement'')"
  proof (cases "map_of (enriched lower T) (py ''Statement'')")
    case None
    then have "py ''Statement'' \<notin> fst ` set (enriched lower T)" by (simp add: map_of_eq_None_iff)
    then have "py ''Statement'' \<notin> fst ` set (filter (\<lambda>(name, col). ?P name col) (enriched lower T))"
      by auto
    then have "map_of (filter (\<lambda>(name, col). ?P name col) (enriched lower T)) (py ''Statement'') = None"
      by (rule map_of_eq_None_iff[THEN iffD2])
    with None show ?thesis by simp
  next
    case (Some col)
    have "?P (py ''Statement'') col" using statement_not_labels statement_not_key by simp
    from map_of_filter_in[OF Some, of ?P, OF this] Some show ?thesis by simp
  qed
  moreover have "map_of (enriched lower T) (py ''Statement'') = map_of T (py ''Statement'')"
    using g by (auto simp: df_getitem_def split: option.splits)
  ultimately show ?thesis
    by (simp add: statements_of_def enrich_labels_removed_def)
qed

lemma statement_kept:
  assumes "py ''Statement'' \<in> set (df_columns T)"
  shows "py ''Statement'' \<in> set (df_columns (enrich_labels_removed (enriched lower T)))"
proof -
  have "df_getitem (enriched lower T) (py ''Statement'') = df_getitem T (py ''Statement'')"
    using statement_not_labels statement_not_key by (rule enriched_getitem_other)
  with df_getitem_statements[OF assms]
  have "map_of (enriched lower T) (py ''Statement'') \<noteq> None"
    by (auto simp: df_getitem_def split: option.splits)
  then obtain col where "(py ''Statement'', col) \<in> set (enriched lower T)"
    by (auto dest: map_of_SomeD)
  then have "(py ''Statement'', col) \<in> set (enrich_labels_removed (enriched lower T))"
    using statement_not_labels statement_not_key by (simp add: enrich_labels_removed_def del: set_map)
  then show ?thesis by (force simp: df_columns_def)
qed

text \<open>
  Claim C7. Enriching a table, removing the derived columns from the result and
  enriching that again gives, for every label of the dictionary, the same column of
  booleans as the first enrichment.
\<close>

theorem enrich_dataframe_again:
  assumes "df < length h" and "wf_table (h ! df)"
    and "py ''Statement'' \<in> set (df_columns (h ! df))"
  shows "\<exists>h1 df1 h2 df2.
           enrich_dataframe lower h df = Inr (h1, df1) \<and>
           enrich_dataframe lower (h1 @ [enrich_labels_removed (h1 ! df1)]) (length h1) = Inr (h2, df2) \<and>
           (\<forall>L\<in>set (map fst dictionaries).
              \<exists>bools. df_getitem (h1 ! df1) L = Inr bools \<and> df_getitem (h2 ! df2) L = Inr bools)"
proof -
  let ?T = "h ! df"
  let ?E = "enriched lower ?T"
  let ?h1 = "h @ [?E]"
  let ?S = "enrich_labels_removed ?E"
  let ?hs = "?h1 @ [?S]"
  have r1: "enrich_dataframe lower h df = Inr (?h1, length h)"
    by (rule enrich_dataframe_enriched[OF assms(1,3)])
  have s: "py ''Statement'' \<in> set (df_columns (?hs ! length ?h1))"
    using statement_kept[OF assms(3), of lower] by (simp only: nth_append_length)
  have "enrich_dataframe lower ?hs (length ?h1) = Inr (?hs @ [enriched lower (?hs ! length ?h1)], length ?hs)"
    by (rule enrich_dataframe_enriched[OF _ s]) simp
  then have r2: "enrich_dataframe lower ?hs (length ?h1) = Inr (?hs @ [enriched lower ?S], length ?hs)"
    by (simp only: nth_append_length)
  have b: "\<forall>L\<in>set (map fst dictionaries).
             \<exists>bools. df_getitem ?E L = Inr bools \<and> df_getitem (enriched lower ?S) L = Inr bools"
    using enriched_getitem_key[of _ lower ?T] enriched_getitem_key[of _ lower ?S]
    by (simp add: statements_of_removed del: set_map)
  have e1: "?h1 ! length h = ?E" by simp
  have e2: "(?hs @ [enriched lower ?S]) ! length ?hs = enriched lower ?S" by (rule nth_append_length)
  show ?thesis
    apply (rule exI[of _ ?h1], rule exI[of _ "length h"])
    apply (rule exI[of _ "?hs @ [enriched lower ?S]"], rule exI[of _ "length ?hs"])
    using r1 r2 b e1 e2 by (simp only: simp_thms)
qed


lemma example_in_range: "0 < length [example_table]"
  by simp

lemma example_wf: "wf_table ([example_table] ! 0)"
  by (simp add: example_table_def wf_table_def df_columns_def nrows_def py_def)

lemma example_statement: "py ''Statement'' \<in> set (df_columns ([example_table] ! 0))"
  by (simp add: example_table_def df_columns_def)

lemma example_no_labels: "py ''labels'' \<notin> set (df_columns ([example_table] ! 0))"
  by (simp add: example_table_def df_columns_def py_def)

lemma example_no_keys: "set (map fst dictionaries) \<inter> set (df_columns ([example_table] ! 0)) = {}"
  by (simp add: example_table_def df_columns_def dictionaries_def py_def)

lemma example_enrich:
  "enrich_dataframe ascii_lower [example_table] 0 = Inr ([example_table, example_enriched], 1)"
  by (simp add: example_table_def example_enriched_def eval_defs)

lemma example_enrich_again:
  "enrich_dataframe ascii_lower
     ([example_table, example_enriched] @ [enrich_labels_removed ([example_table, example_enriched] ! 1)]) 2
   = Inr ([example_table, example_enriched, example_table, example_enriched], 3)"
  by (simp add: example_table_def example_enriched_def enrich_labels_removed_def eval_defs)

text \<open>
  Claim C3 as stated fails on a table that already has a column named \<open>labels\<close>: the
  assignment \<open>df["labels"] = ...\<close> replaces that column.
\<close>

theorem enrich_dataframe_overwrites_counterexample:
  "wf_table clash_table \<and> py ''Statement'' \<in> set (df_columns clash_table) \<and>
   enrich_dataframe ascii_lower [clash_table] 0 = Inr ([clash_table, clash_enriched], 1) \<and>
   df_getitem clash_table (py ''labels'') = Inr [CStr (py ''mine'')] \<and>
   df_getitem clash_enriched (py ''labels'') = Inr [CLabels [py ''urgency_marketing'']] \<and>
   df_getitem clash_enriched (py ''labels'') \<noteq> df_getitem clash_table (py ''labels'')"
  by (simp add: clash_table_def clash_enriched_def eval_defs)

theorem enrich_dataframe_preserves_witness:
  "0 < length [example_table] \<and> wf_table ([example_table] ! 0) \<and>
   py ''Statement'' \<in> set (df_columns ([example_table] ! 0)) \<and>
   py ''labels'' \<notin> set (df_columns ([example_table] ! 0)) \<and>
   set (map fst dictionaries) \<inter> set (df_columns ([example_table] ! 0)) = {} \<and>
   enrich_dataframe ascii_lower [example_table] 0 = Inr ([example_table, example_enriched], 1) \<and>
   (\<exists>h' df'. enrich_dataframe ascii_lower [example_table] 0 = Inr (h', df') \<and>
      wf_table (h' ! df') \<and> nrows (h' ! df') = nrows ([example_table] ! 0) \<and>
      take (length ([example_table] ! 0)) (h' ! df') = [example_table] ! 0 \<and>
      df_columns (h' ! df') =
        df_columns ([example_table] ! 0) @ [py ''labels''] @ map fst dictionaries)"
  using enrich_dataframe_preserves[OF example_in_range example_wf example_statement
      example_no_labels example_no_keys, of ascii_lower]
    example_in_range example_wf example_statement example_no_labels example_no_keys example_enrich
  by blast

theorem enrich_dataframe_onehot_witness:
  "0 < length [example_table] \<and> wf_table ([example_table] ! 0) \<and>
   py ''Statement'' \<in> set (df_columns ([example_table] ! 0)) \<and>
   enrich_dataframe ascii_lower [example_table] 0 = Inr ([example_table, example_enriched], 1) \<and>
   (\<exists>h' df' lss. enrich_dataframe ascii_lower [example_table] 0 = Inr (h', df') \<and>
      length lss = nrows ([example_table] ! 0) \<and>
      df_getitem (h' ! df') (py ''labels'') = Inr (map CLabels lss) \<and>
      (\<forall>L\<in>set (map fst dictionaries).
         df_getitem (h' ! df') L = Inr (map (\<lambda>cats. CBool (L \<in> set cats)) lss)))"
  using enrich_dataframe_onehot[OF example_in_range example_wf example_statement, of ascii_lower]
    example_in_range example_wf example_statement example_enrich
  by blast

theorem enrich_dataframe_no_mutation_witness:
  "0 < length [example_table] \<and> wf_table ([example_table] ! 0) \<and>
   py ''Statement'' \<in> set (df_columns ([example_table] ! 0)) \<and>
   enrich_dataframe ascii_lower [example_table] 0 = Inr ([example_table, example_enriched], 1) \<and>
   (\<exists>h' df'. enrich_dataframe ascii_lower [example_table] 0 = Inr (h', df') \<and>
      df' \<noteq> 0 \<and> length [example_table] \<le> df' \<and> df' < length h' \<and>
      (\<forall>r<length [example_table]. h' ! r = [example_table] ! r))"
  using enrich_dataframe_no_mutation[OF example_in_range example_wf example_statement, of ascii_lower]
    example_in_range example_wf example_statement example_enrich
  by blast

theorem enrich_dataframe_again_witness:
  "0 < length [example_table] \<and> wf_table ([example_table] ! 0) \<and>
   py ''Statement'' \<in> set (df_columns ([example_table] ! 0)) \<and>
   enrich_dataframe ascii_lower [example_table] 0 = Inr ([example_table, example_enriched], 1) \<and>
   enrich_dataframe ascii_lower
     ([example_table, example_enriched] @ [enrich_labels_removed ([example_table, example_enriched] ! 1)]) 2
     = Inr ([example_table, example_enriched, example_table, example_enriched], 3) \<and>
   (\<exists>h1 df1 h2 df2.
      enrich_dataframe ascii_lower [example_table] 0 = Inr (h1, df1) \<and>
      enrich_dataframe ascii_lower (h1 @ [enrich_labels_removed (h1 ! df1)]) (length h1) = Inr (h2, df2) \<and>
      (\<forall>L\<in>set (map fst dictionaries).
         \<exists>bools. df_getitem (h1 ! df1) L = Inr bools \<and> df_getitem (h2 ! df2) L = Inr bools))"
  using enrich_dataframe_again[OF example_in_range example_wf example_statement, of ascii_lower]
    example_in_range example_wf example_statement example_enrich example_enrich_again
  by blast

section \<open>Properties of \<open>get_csv_download\<close>\<close>

lemma wf_text_Nil: "wf_text []"
  by (simp add: wf_text_def)

lemma wf_text_Cons: "wf_text (c # s) \<longleftrightarrow> scalar_value c \<and> wf_text s"
  by (simp add: wf_text_def)

lemma wf_text_append: "wf_text (a @ b) \<longleftrightarrow> wf_text a \<and> wf_text b"
  by (auto simp: wf_text_def)

lemma wf_text_concat: "(\<And>x. x \<in> set xs \<Longrightarrow> wf_text x) \<Longrightarrow> wf_text (concat xs)"
  by (auto simp: wf_text_def)

lemma scalar_value_small: "c < 256 \<Longrightarrow> scalar_value c"
  by (simp add: scalar_value_def)

lemma wf_text_py: "wf_text (py s)"
proof -
  have "of_char c < (256::nat)" for c :: char
    by (simp add: of_char_def)
  then show ?thesis
    by (auto simp: wf_text_def py_def intro!: scalar_value_small)
qed

lemma digits10_digit: "c \<in> set (digits10 n) \<Longrightarrow> c < 58"
proof (induction n arbitrary: c rule: digits10.induct)
  case (1 n)
  show ?case
  proof (cases "n < 10")
    case True
    with "1.prems" show ?thesis by (simp add: digits10.simps[of n])
  next
    case False
    with "1.prems" have "c \<in> set (digits10 (n div 10)) \<or> c = 48 + n mod 10"
      by (auto simp: digits10.simps[of n])
    then show ?thesis
    proof
      assume "c \<in> set (digits10 (n div 10))"
      with False show ?thesis using "1.IH" by blast
    next
      assume "c = 48 + n mod 10"
      then show ?thesis by simp
    qed
  qed
qed

lemma wf_text_int_str: "wf_text (int_str i)"
  by (auto simp: int_str_def wf_text_def scalar_value_def dest!: digits10_digit)

lemma wf_text_join_str:
  "wf_text sep \<Longrightarrow> (\<And>x. x \<in> set xs \<Longrightarrow> wf_text x) \<Longrightarrow> wf_text (join_str sep xs)"
  by (induction sep xs rule: join_str.induct) (simp_all add: wf_text_Nil wf_text_append)

lemma wf_text_labels_str: "(\<And>l. l \<in> set ls \<Longrightarrow> wf_text l) \<Longrightarrow> wf_text (labels_str ls)"
  unfolding labels_str_def
  by (auto simp: wf_text_append wf_text_py intro!: wf_text_join_str)

lemma wf_text_cell_str: "wf_cell c \<Longrightarrow> wf_text (cell_str c)"
  by (cases c) (simp_all add: wf_text_py wf_text_int_str wf_text_labels_str)

lemma wf_text_csv_text: "wf_cell c \<Longrightarrow> wf_text (csv_text c)"
  by (simp add: csv_text_def wf_text_Nil wf_text_cell_str)

lemma wf_text_csv_field: "wf_text field \<Longrightarrow> wf_text (csv_field field)"
  by (auto simp: csv_field_def wf_text_def scalar_value_def)

lemma wf_text_csv_line: "(\<And>x. x \<in> set fields \<Longrightarrow> wf_text x) \<Longrightarrow> wf_text (csv_line fields)"
  unfolding csv_line_def
  by (auto simp: wf_text_append wf_text_Cons wf_text_Nil scalar_value_def
      intro!: wf_text_join_str wf_text_csv_field)

lemma wf_text_to_csv:
  assumes "wf_table df" and "wf_content df"
  shows "wf_text (to_csv df)"
proof -
  have h: "wf_text (csv_line (df_columns df))"
    using assms(2) by (intro wf_text_csv_line) (auto simp: df_columns_def wf_content_def)
  have r: "wf_text (csv_line (map csv_text row))" if "row \<in> set (df_rows df)" for row
  proof (rule wf_text_csv_line)
    fix x assume "x \<in> set (map csv_text row)"
    then obtain c where c: "c \<in> set row" and x: "x = csv_text c" by auto
    from that obtain i where i: "i < nrows df" and row: "row = map (\<lambda>(name, col). col ! i) df"
      by (auto simp: df_rows_def)
    from c row obtain name col where m: "(name, col) \<in> set df" and ci: "c = col ! i" by auto
    from assms(1) m have "length col = nrows df" by (auto simp: wf_table_def)
    with i ci have "c \<in> set col" by simp
    with assms(2) m have "wf_cell c" by (auto simp: wf_content_def)
    with x show "wf_text x" by (simp add: wf_text_csv_text)
  qed
  show ?thesis
    unfolding to_csv_def wf_text_append using h r by (auto intro!: wf_text_concat)
qed

lemma utf8_char_ok: "(\<exists>bs. utf8_char c = Inr bs) \<longleftrightarrow> scalar_value c"
  by (auto simp: utf8_char_def scalar_value_def)

lemma encode_utf8_ok: "(\<exists>bs. encode_utf8 s = Inr bs) \<longleftrightarrow> wf_text s"
proof (induction s)
  case Nil
  then show ?case by (simp add: wf_text_Nil)
next
  case (Cons c s)
  have "(\<exists>bs. encode_utf8 (c # s) = Inr bs) \<longleftrightarrow> (\<exists>bs. utf8_char c = Inr bs) \<and> (\<exists>bs. encode_utf8 s = Inr bs)"
    by (auto split: sum.splits)
  with Cons.IH show ?case by (simp add: utf8_char_ok wf_text_Cons)
qed

lemma encode_utf8_append:
  "encode_utf8 a = Inr x \<Longrightarrow> encode_utf8 b = Inr y \<Longrightarrow> encode_utf8 (a @ b) = Inr (x @ y)"
  by (induction a arbitrary: x) (auto split: sum.splits)

lemma get_csv_download_ok:
  assumes "wf_table df" and "wf_content df"
  shows "\<exists>csv_bytes. encode_utf8 (to_csv df) = Inr csv_bytes \<and>
           get_csv_download df original_name =
             Inr (csv_bytes, path_stem original_name @ py ''_classified.csv'')"
proof -
  from wf_text_to_csv[OF assms] obtain bs where "encode_utf8 (to_csv df) = Inr bs"
    using encode_utf8_ok by blast
  then show ?thesis by (simp add: get_csv_download_def)
qed

text \<open>
  Claim C2. For a table whose column names and cells are well-formed text,
  \<open>get_csv_download\<close> returns bytes and a name, and raises nothing: the bytes are the
  UTF-8 encoding of the comma-separated text of the table, and they begin with the
  encoding of the header row, which lists all column names in their current order; the
  encoding of the rows follows.
\<close>

theorem get_csv_download_encodes:
  assumes "wf_table df" and "wf_content df"
  shows "\<exists>csv_bytes new_name header_bytes rows_bytes.
           get_csv_download df original_name = Inr (csv_bytes, new_name) \<and>
           encode_utf8 (to_csv df) = Inr csv_bytes \<and>
           encode_utf8 (csv_line (df_columns df)) = Inr header_bytes \<and>
           encode_utf8 (concat (map (\<lambda>row. csv_line (map csv_text row)) (df_rows df))) = Inr rows_bytes \<and>
           csv_bytes = header_bytes @ rows_bytes"
proof -
  let ?rows = "concat (map (\<lambda>row. csv_line (map csv_text row)) (df_rows df))"
  from get_csv_download_ok[OF assms, of original_name] obtain bs
    where e: "encode_utf8 (to_csv df) = Inr bs"
      and g: "get_csv_download df original_name = Inr (bs, path_stem original_name @ py ''_classified.csv'')"
    by blast
  have "wf_text (csv_line (df_columns df) @ ?rows)"
    using wf_text_to_csv[OF assms] by (simp add: to_csv_def)
  then have "wf_text (csv_line (df_columns df))" and "wf_text ?rows"
    by (simp_all add: wf_text_append)
  then obtain hb rb where hb: "encode_utf8 (csv_line (df_columns df)) = Inr hb"
    and rb: "encode_utf8 ?rows = Inr rb"
    using encode_utf8_ok by blast
  from encode_utf8_append[OF hb rb] e have "bs = hb @ rb" by (simp add: to_csv_def)
  with e g hb rb show ?thesis by blast
qed

lemma example_enriched_wf: "wf_table example_enriched"
  by (simp add: example_enriched_def wf_table_def df_columns_def nrows_def py_def)

lemma example_enriched_content: "wf_content example_enriched"
  by (simp add: example_enriched_def wf_content_def wf_text_py)

lemma example_header:
  "encode_utf8 (csv_line (df_columns example_enriched)) =
     Inr (map of_nat (py ''Statement,id,labels,urgency_marketing,exclusive_marketing'' @ [10]))"
  by (simp add: example_enriched_def df_columns_def csv_line_def csv_field_def needs_quote_def
      utf8_char_def py_def)

theorem get_csv_download_encodes_witness:
  "wf_table example_enriched \<and> wf_content example_enriched \<and>
   encode_utf8 (csv_line (df_columns example_enriched)) =
     Inr (map of_nat (py ''Statement,id,labels,urgency_marketing,exclusive_marketing'' @ [10])) \<and>
   (\<exists>csv_bytes new_name header_bytes rows_bytes.
      get_csv_download example_enriched (py ''data.csv'') = Inr (csv_bytes, new_name) \<and>
      encode_utf8 (to_csv example_enriched) = Inr csv_bytes \<and>
      encode_utf8 (csv_line (df_columns example_enriched)) = Inr header_bytes \<and>
      encode_utf8 (concat (map (\<lambda>row. csv_line (map csv_text row)) (df_rows example_enriched)))
        = Inr rows_bytes \<and>
      csv_bytes = header_bytes @ rows_bytes)"
  using get_csv_download_encodes[OF example_enriched_wf example_enriched_content, of "py ''data.csv''"]
    example_enriched_wf example_enriched_content example_header
  by blast

lemma split_sep_plain: "sep \<notin> set s \<Longrightarrow> split_sep sep s = [s]"
  by (induction s) auto

lemma path_name_plain:
  "47 \<notin> set s \<Longrightarrow> s \<noteq> [] \<Longrightarrow> s \<noteq> py ''.'' \<Longrightarrow> path_name s = s"
  by (simp add: path_name_def split_sep_plain)

lemma rfind_absent: "c \<notin> set s \<Longrightarrow> rfind c s = None"
  by (induction s) auto

lemma rfind_last: "c \<notin> set ext \<Longrightarrow> rfind c (base @ c # ext) = Some (length base)"
  by (induction base) (auto simp: rfind_absent)

lemma path_stem_ext:
  assumes "base \<noteq> []" and "ext \<noteq> []" and "46 \<notin> set ext" and "47 \<notin> set (base @ ext)"
  shows "path_stem (base @ [46] @ ext) = base"
proof -
  define nm where "nm = base @ [46] @ ext"
  have "nm \<noteq> py ''.''" using assms(1) by (cases base) (auto simp: py_def nm_def)
  moreover have "47 \<notin> set nm" using assms(4) by (simp add: nm_def)
  moreover have "nm \<noteq> []" by (simp add: nm_def)
  ultimately have n: "path_name nm = nm" by (intro path_name_plain)
  have r: "rfind 46 nm = Some (length base)"
    using rfind_last[OF assms(3), of base] by (simp add: nm_def)
  have l: "0 < length base" "length base < length nm - 1"
    using assms(1,2) by (simp_all add: Suc_le_eq nm_def)
  have t: "take (length base) nm = base" by (simp add: nm_def)
  have "path_stem nm = base"
    using l by (simp add: path_stem_def n r t)
  then show ?thesis by (simp only: nm_def)
qed

text \<open>
  Claim C10. The suggested file name is the stem of the original name followed by
  \<open>_classified.csv\<close>: \<open>data.csv\<close> gives \<open>data_classified.csv\<close>, \<open>report.v2.csv\<close> gives
  \<open>report.v2_classified.csv\<close>, and in general a name \<open>base.ext\<close> without a slash, where
  \<open>ext\<close> has no dot and neither part is empty, gives \<open>base_classified.csv\<close>: only the
  last extension is removed.
\<close>

theorem get_csv_download_name:
  assumes "wf_table df" and "wf_content df"
  shows "(\<exists>csv_bytes. get_csv_download df (py ''data.csv'') = Inr (csv_bytes, py ''data_classified.csv'')) \<and>
         (\<exists>csv_bytes. get_csv_download df (py ''report.v2.csv'')
                        = Inr (csv_bytes, py ''report.v2_classified.csv'')) \<and>
         (\<forall>base ext. base \<noteq> [] \<and> ext \<noteq> [] \<and> 46 \<notin> set ext \<and> 47 \<notin> set (base @ ext) \<longrightarrow>
            (\<exists>csv_bytes. get_csv_download df (base @ [46] @ ext)
                           = Inr (csv_bytes, base @ py ''_classified.csv'')))"
proof (intro conjI allI impI)
  have "path_stem (py ''data.csv'') @ py ''_classified.csv'' = py ''data_classified.csv''"
    by (simp add: path_stem_def path_name_def py_def)
  with get_csv_download_ok[OF assms, of "py ''data.csv''"]
  show "\<exists>csv_bytes. get_csv_download df (py ''data.csv'') = Inr (csv_bytes, py ''data_classified.csv'')"
    by auto
next
  have "path_stem (py ''report.v2.csv'') @ py ''_classified.csv'' = py ''report.v2_classified.csv''"
    by (simp add: path_stem_def path_name_def py_def)
  with get_csv_download_ok[OF assms, of "py ''report.v2.csv''"]
  show "\<exists>csv_bytes. get_csv_download df (py ''report.v2.csv'')
                        = Inr (csv_bytes, py ''report.v2_classified.csv'')"
    by auto
next
  fix base ext :: pystr
  assume a: "base \<noteq> [] \<and> ext \<noteq> [] \<and> 46 \<notin> set ext \<and> 47 \<notin> set (base @ ext)"
  then have "path_stem (base @ [46] @ ext) = base" by (intro path_stem_ext) simp_all
  with get_csv_download_ok[OF assms, of "base @ [46] @ ext"]
  show "\<exists>csv_bytes. get_csv_download df (base @ [46] @ ext)
                           = Inr (csv_bytes, base @ py ''_classified.csv'')"
    by auto
qed

theorem get_csv_download_name_witness:
  "wf_table example_enriched \<and> wf_content example_enriched \<and>
   (\<exists>csv_bytes. get_csv_download example_enriched (py ''data.csv'')
                  = Inr (csv_bytes, py ''data_classified.csv'')) \<and>
   (\<exists>csv_bytes. get_csv_download example_enriched (py ''report.v2.csv'')
                  = Inr (csv_bytes, py ''report.v2_classified.csv'')) \<and>
   (\<exists>csv_bytes. get_csv_download example_enriched (py ''archive.tar'' @ [46] @ py ''gz'')
                  = Inr (csv_bytes, py ''archive.tar'' @ py ''_classified.csv''))"
proof -
  have c: "py ''archive.tar'' \<noteq> [] \<and> py ''gz'' \<noteq> [] \<and> 46 \<notin> set (py ''gz'') \<and>
           47 \<notin> set (py ''archive.tar'' @ py ''gz'')"
    by (simp add: py_def)
  from get_csv_download_name[OF example_enriched_wf example_enriched_content] c
  have "\<exists>csv_bytes. get_csv_download example_enriched (py ''archive.tar'' @ [46] @ py ''gz'')
                  = Inr (csv_bytes, py ''archive.tar'' @ py ''_classified.csv'')"
    by blast
  with get_csv_download_name[OF example_enriched_wf example_enriched_content]
    example_enriched_wf example_enriched_content
  show ?thesis by blast
qed

end
